theory Spec2Isabelle
  imports Complex_Main "HOL-Library.Sublist"
begin

section \<open>Calendar dates\<close>

text \<open>
  A \<^verbatim>\<open>datetime.date\<close> is represented by its proleptic Gregorian ordinal
  (\<^verbatim>\<open>date.toordinal()\<close>): day 1 is 0001-01-01, a Monday, and the last
  representable day, \<^verbatim>\<open>date.max\<close> = 9999-12-31, is day 3652059. Arithmetic that
  leaves this range raises \<^verbatim>\<open>OverflowError\<close>, as does a \<^verbatim>\<open>timedelta\<close>
  of more than 999999999 days.
\<close>

type_synonym date = int

datatype error = OverflowError | WebDriverException | RequestException | TypeError
  | OSError | JSONDecodeError | AttributeError | ValueError

definition MINORD :: int where
  "MINORD = 1"

definition MAXORD :: int where
  "MAXORD = 3652059"

definition weekday :: "date \<Rightarrow> int" where
  \<comment> \<open>\<^verbatim>\<open>date.weekday()\<close>: Monday is 0, Friday 4, Saturday 5, Sunday 6.\<close>
  "weekday d = (d + 6) mod 7"

definition timedelta :: "int \<Rightarrow> error + int" where
  \<comment> \<open>\<^verbatim>\<open>datetime.timedelta(days=n)\<close>\<close>
  "timedelta n = (if \<bar>n\<bar> \<le> 999999999 then Inr n else Inl OverflowError)"

definition date_add :: "date \<Rightarrow> int \<Rightarrow> error + date" where
  \<comment> \<open>\<^verbatim>\<open>d + datetime.timedelta(days=n)\<close>\<close>
  "date_add d n =
     (case timedelta n of
        Inl e \<Rightarrow> Inl e
      | Inr k \<Rightarrow> (if MINORD \<le> d + k \<and> d + k \<le> MAXORD then Inr (d + k) else Inl OverflowError))"

definition days_between :: "date \<Rightarrow> date \<Rightarrow> int" where
  \<comment> \<open>\<^verbatim>\<open>(date2 - date1).days\<close>\<close>
  "days_between date2 date1 = date2 - date1"

section \<open>Weekend date generation\<close>

text \<open>
  \<^verbatim>\<open>get_weekend_dates\<close> reads the system date; here it is the parameter
  \<open>today\<close>. The \<^verbatim>\<open>while\<close> loop carries \<open>current\<close> and the list built so far.
\<close>

function gwd_loop :: "date \<Rightarrow> date \<Rightarrow> date list \<Rightarrow> error + date list" where
  "gwd_loop current end_date weekend_dates =
     (if current \<le> end_date then
        (let weekend_dates' =
               (if weekday current \<in> set [4, 5, 6] then weekend_dates @ [current]
                else weekend_dates)
         in case date_add current 1 of
              Inl e \<Rightarrow> Inl e
            | Inr current' \<Rightarrow> gwd_loop current' end_date weekend_dates')
      else Inr weekend_dates)"
  by pat_completeness auto
termination
  by (relation "measure (\<lambda>(current, end_date, _). nat (end_date + 1 - current))")
     (auto simp: date_add_def timedelta_def split: if_splits)

declare gwd_loop.simps [simp del]

definition get_weekend_dates :: "date \<Rightarrow> int \<Rightarrow> error + date list" where
  "get_weekend_dates today months_ahead =
     (case date_add today (30 * months_ahead) of
        Inl e \<Rightarrow> Inl e
      | Inr end_date \<Rightarrow> gwd_loop today end_date [])"

section \<open>Consecutive weekend pairs\<close>

fun fcd_loop :: "date list \<Rightarrow> nat list \<Rightarrow> (date \<times> date) list \<Rightarrow> (date \<times> date) list" where
  "fcd_loop available_dates [] consecutive_pairs = consecutive_pairs"
| "fcd_loop available_dates (i # is) consecutive_pairs =
     (let date1 = available_dates ! i;
          date2 = available_dates ! (i + 1)
      in if days_between date2 date1 = 1 then
           (if (weekday date1 = 4 \<and> weekday date2 = 5) \<or> (weekday date1 = 5 \<and> weekday date2 = 6)
            then fcd_loop available_dates is (consecutive_pairs @ [(date1, date2)])
            else fcd_loop available_dates is consecutive_pairs)
         else fcd_loop available_dates is consecutive_pairs)"

definition find_consecutive_days :: "date list \<Rightarrow> (date \<times> date) list" where
  \<comment> \<open>\<^verbatim>\<open>range(len(available_dates) - 1)\<close> is empty for lists of length 0 and 1,
      so every index read is in range.\<close>
  "find_consecutive_days available_dates =
     fcd_loop available_dates [0 ..< length available_dates - 1] []"

section \<open>Strings\<close>

text \<open>
  Page content is a \<open>string\<close>. \<^verbatim>\<open>str.lower()\<close> is modelled on the ASCII letters,
  and \<^verbatim>\<open>phrase in text\<close> is the contiguous-substring test.
\<close>

definition lower_char :: "char \<Rightarrow> char" where
  "lower_char c =
     (let n = (of_char c :: nat) in if 65 \<le> n \<and> n \<le> 90 then char_of (n + 32) else c)"

definition lower :: "string \<Rightarrow> string" where
  "lower s = map lower_char s"

fun py_in :: "string \<Rightarrow> string \<Rightarrow> bool" where
  "py_in phrase [] = (phrase = [])"
| "py_in phrase (c # s) = (prefix phrase (c # s) \<or> py_in phrase s)"

definition any_in :: "string list \<Rightarrow> string \<Rightarrow> bool" where
  \<comment> \<open>\<^verbatim>\<open>any(phrase in text for phrase in phrases)\<close>\<close>
  "any_in phrases text = list_ex (\<lambda>phrase. py_in phrase text) phrases"

section \<open>Configuration\<close>

record email_config =
  enabled :: bool
  smtp_server :: string
  smtp_port :: int
  username :: string
  password :: string
  from_address :: string
  to_address :: string
  consecutive_subject :: string
  single_day_subject :: string

record urls_config =
  base_url :: string
  widget_config_url :: string

record config =
  method_name :: string
  browser :: string
  headless :: bool
  check_interval_hours :: real
  interval_variation_percent :: real
  months_ahead :: int
  weekends_only :: bool
  check_friday_saturday :: bool
  check_saturday_sunday :: bool
  email :: email_config
  urls :: urls_config
  max_retries :: int
  retry_delay_seconds :: int
  adults :: int
  children :: int

definition DEFAULT_CONFIG :: config where
  "DEFAULT_CONFIG =
     \<lparr> method_name = ''selenium'',
       browser = ''chrome'',
       headless = True,
       check_interval_hours = 3,
       interval_variation_percent = 20,
       months_ahead = 6,
       weekends_only = True,
       check_friday_saturday = True,
       check_saturday_sunday = True,
       email =
         \<lparr> enabled = True,
           smtp_server = ''smtp.gmail.com'',
           smtp_port = 587,
           username = [],
           password = [],
           from_address = [],
           to_address = [],
           consecutive_subject = ''Consecutive Weekend Available at Yosemite Valley Lodge!'',
           single_day_subject = ''Weekend Day Available at Yosemite Valley Lodge'' \<rparr>,
       urls =
         \<lparr> base_url = ''https://reservations.ahlsmsworld.com/Yosemite/Plan-Your-Trip/Accommodations/Yosemite-Valley-Lodge/'',
           widget_config_url = ''https://reservations.ahlsmsworld.com/Yosemite/Search/GetWidgetConfigData'' \<rparr>,
       max_retries = 3,
       retry_delay_seconds = 60,
       adults = 1,
       children = 0 \<rparr>"

section \<open>Availability classification\<close>

text \<open>
  The browser and the HTML parser are outside the program. What the classifier reads from
  them is a record: the texts it searches and, for every element query, the number of
  elements found.
\<close>

definition error_phrases :: "string list" where
  "error_phrases =
     [''action not allowed'', ''access denied'', ''error'', ''unavailable'', ''forbidden'']"

definition no_availability_phrases :: "string list" where
  "no_availability_phrases =
     [''no availability'', ''not available'', ''no rooms available'', ''sold out'',
      ''no lodging available'', ''no results found'',
      ''couldn'' @ [CHR 0x27] @ ''t find any results'',
      ''we couldn'' @ [CHR 0x27] @ ''t find any results'']"

definition result_patterns :: "string list" where
  "result_patterns =
     [''Accommodation-Search/Results'', ''accommodation-search/results'', ''Availability'',
      ''results'', ''search'']"

record selenium_page =
  current_url :: string
  page_source :: string
  page_title :: string
  results_heading_elements :: nat
  book_button_elements :: nat
  price_element_counts :: "error + nat \<times> nat \<times> nat"
  room_detail_elements :: nat

definition is_results_url :: "selenium_page \<Rightarrow> bool" where
  "is_results_url p = any_in result_patterns (lower (current_url p))"

definition has_error :: "selenium_page \<Rightarrow> bool" where
  "has_error p = any_in error_phrases (lower (lower (page_source p)))"

definition no_availability_found :: "selenium_page \<Rightarrow> bool" where
  "no_availability_found p = any_in no_availability_phrases (lower (lower (page_source p)))"

definition results_heading :: "selenium_page \<Rightarrow> bool" where
  "results_heading p \<longleftrightarrow> results_heading_elements p > 0"

definition has_book_button :: "selenium_page \<Rightarrow> bool" where
  "has_book_button p \<longleftrightarrow> book_button_elements p > 0"

definition has_price :: "selenium_page \<Rightarrow> bool" where
  "has_price p =
     (case price_element_counts p of
        Inl e \<Rightarrow> False
      | Inr (price_elements1, price_elements2, price_elements3) \<Rightarrow>
          price_elements1 + price_elements2 + price_elements3 > 0)"

definition has_room_details :: "selenium_page \<Rightarrow> bool" where
  "has_room_details p \<longleftrightarrow> room_detail_elements p > 0"

definition is_search_form_visible :: "selenium_page \<Rightarrow> bool" where
  "is_search_form_visible p \<longleftrightarrow>
     py_in ''search'' (lower (lower (page_source p))) \<and>
     py_in ''check availability'' (lower (lower (page_source p)))"

definition is_results_page :: "selenium_page \<Rightarrow> bool" where
  "is_results_page p \<longleftrightarrow>
     is_results_url p \<or> results_heading p \<or>
     py_in ''results'' (lower (page_title p)) \<or>
     py_in ''availability'' (lower (page_title p)) \<or>
     (py_in ''search results'' (lower (lower (page_source p))) \<and> \<not> is_search_form_visible p)"

definition true_availability :: "selenium_page \<Rightarrow> bool" where
  \<comment> \<open>The verdict of \<^verbatim>\<open>YosemiteSeleniumChecker.check_availability\<close> for one date pair.\<close>
  "true_availability p \<longleftrightarrow>
     is_results_page p \<and>
     (has_book_button p \<or> has_price p \<or> has_room_details p) \<and>
     \<not> no_availability_found p \<and>
     \<not> has_error p"

record requests_page =
  soup_text :: string
  rate_elements :: nat
  book_buttons :: nat
  price_elements :: nat

definition no_availability :: "requests_page \<Rightarrow> bool" where
  \<comment> \<open>Computed by the Requests variant, and not read afterwards.\<close>
  "no_availability r = any_in no_availability_phrases (lower (soup_text r))"

definition has_dollar_sign :: "requests_page \<Rightarrow> bool" where
  "has_dollar_sign r = py_in ''$'' (lower (soup_text r))"

definition has_availability :: "requests_page \<Rightarrow> bool" where
  \<comment> \<open>The verdict of \<^verbatim>\<open>YosemiteRequestsChecker.check_availability\<close> for one date pair.\<close>
  "has_availability r \<longleftrightarrow>
     rate_elements r > 0 \<or> book_buttons r > 0 \<or> price_elements r > 0 \<or> has_dollar_sign r"

definition equivalent_content :: "selenium_page \<Rightarrow> requests_page \<Rightarrow> bool" where
  \<comment> \<open>Following the specification's words, "equivalent page content": every phrase
      test gives the same answer on the text each variant reads, and the two ways of
      gathering evidence agree on whether a positive signal is present.\<close>
  "equivalent_content p r \<longleftrightarrow>
     list_all (\<lambda>phrase. py_in phrase (lower (page_source p)) = py_in phrase (lower (soup_text r)))
       (error_phrases @ no_availability_phrases) \<and>
     ((has_book_button p \<or> has_price p \<or> has_room_details p) \<longleftrightarrow>
      (rate_elements r > 0 \<or> book_buttons r > 0 \<or> price_elements r > 0 \<or> has_dollar_sign r))"

section \<open>The probing pass\<close>

text \<open>
  Both checkers run the same loop over \<^verbatim>\<open>range(len(weekend_dates) - 1)\<close>. Fetching
  and classifying one date pair is the parameter \<open>probe\<close>: \<open>Inl\<close> is an exception
  inside the inner \<^verbatim>\<open>try\<close>, which is logged and skipped. An exception outside it ends
  the loop in the outer handler, and the dates found so far are returned. The second
  component records each pair for which "Checking availability for ..." is logged,
  that is, each pair probed.
\<close>

fun check_loop ::
  "config \<Rightarrow> (date \<Rightarrow> date \<Rightarrow> error + bool) \<Rightarrow> date list \<Rightarrow> nat list \<Rightarrow>
   date list \<times> (date \<times> date) list \<Rightarrow> date list \<times> (date \<times> date) list" where
  "check_loop c probe weekend_dates [] (available_dates, probed) = (available_dates, probed)"
| "check_loop c probe weekend_dates (i # is) (available_dates, probed) =
     (let check_in_date = weekend_dates ! i in
      case date_add check_in_date 1 of
        Inl e \<Rightarrow> (available_dates, probed)
      | Inr check_out_date \<Rightarrow>
          if weekday check_in_date = 4 \<and> \<not> check_friday_saturday c then
            check_loop c probe weekend_dates is (available_dates, probed)
          else if weekday check_in_date = 5 \<and> \<not> check_saturday_sunday c then
            check_loop c probe weekend_dates is (available_dates, probed)
          else if weekday check_in_date \<notin> set [4, 5] then
            check_loop c probe weekend_dates is (available_dates, probed)
          else
            (case probe check_in_date check_out_date of
               Inr True \<Rightarrow>
                 check_loop c probe weekend_dates is
                   (available_dates @ [check_in_date], probed @ [(check_in_date, check_out_date)])
             | Inr False \<Rightarrow>
                 check_loop c probe weekend_dates is
                   (available_dates, probed @ [(check_in_date, check_out_date)])
             | Inl e \<Rightarrow>
                 check_loop c probe weekend_dates is
                   (available_dates, probed @ [(check_in_date, check_out_date)])))"

definition selenium_probe ::
  "(date \<Rightarrow> date \<Rightarrow> error + selenium_page) \<Rightarrow> date \<Rightarrow> date \<Rightarrow> error + bool" where
  "selenium_probe fetch check_in_date check_out_date =
     (case fetch check_in_date check_out_date of
        Inl e \<Rightarrow> Inl e
      | Inr p \<Rightarrow> Inr (true_availability p))"

definition requests_probe ::
  "(date \<Rightarrow> date \<Rightarrow> error + requests_page) \<Rightarrow> date \<Rightarrow> date \<Rightarrow> error + bool" where
  "requests_probe fetch check_in_date check_out_date =
     (case fetch check_in_date check_out_date of
        Inl e \<Rightarrow> Inl e
      | Inr r \<Rightarrow> Inr (has_availability r))"

definition setup_browser :: "config \<Rightarrow> (string \<Rightarrow> error + unit) \<Rightarrow> error + unit" where
  \<comment> \<open>\<open>launch\<close> starts the named driver; any failure is raised again.\<close>
  "setup_browser c launch =
     (let browser_name = lower (browser c) in
      if browser_name = ''chrome'' then launch ''chrome''
      else if browser_name = ''firefox'' then launch ''firefox''
      else Inl ValueError)"

definition selenium_check_availability ::
  "config \<Rightarrow> date \<Rightarrow> (string \<Rightarrow> error + unit) \<Rightarrow> (date \<Rightarrow> date \<Rightarrow> error + selenium_page) \<Rightarrow>
   error + unit \<Rightarrow> error + date list \<times> (date \<times> date) list" where
  \<comment> \<open>\<open>quit\<close> is \<^verbatim>\<open>self.browser.quit()\<close> in the \<^verbatim>\<open>finally\<close> clause.\<close>
  "selenium_check_availability c today launch fetch quit =
     (case setup_browser c launch of
        Inl e \<Rightarrow> Inl e
      | Inr u \<Rightarrow>
          (case get_weekend_dates today (months_ahead c) of
             Inl e \<Rightarrow> Inl e
           | Inr weekend_dates \<Rightarrow>
               (let found = check_loop c (selenium_probe fetch) weekend_dates
                              [0 ..< length weekend_dates - 1] ([], [])
                in case quit of Inl e \<Rightarrow> Inl e | Inr v \<Rightarrow> Inr found)))"

definition requests_check_availability ::
  "config \<Rightarrow> date \<Rightarrow> error + unit \<Rightarrow> (date \<Rightarrow> date \<Rightarrow> error + requests_page) \<Rightarrow>
   error + date list \<times> (date \<times> date) list" where
  \<comment> \<open>\<open>main_page\<close> is the first request, to the base URL, inside the outer \<^verbatim>\<open>try\<close>.\<close>
  "requests_check_availability c today main_page fetch =
     (case get_weekend_dates today (months_ahead c) of
        Inl e \<Rightarrow> Inl e
      | Inr weekend_dates \<Rightarrow>
          (case main_page of
             Inl e \<Rightarrow> Inr ([], [])
           | Inr u \<Rightarrow>
               Inr (check_loop c (requests_probe fetch) weekend_dates
                      [0 ..< length weekend_dates - 1] ([], []))))"

section \<open>Retries\<close>

text \<open>
  \<open>attempt n\<close> is the outcome of the call of \<^verbatim>\<open>self.check_availability()\<close> made after
  \<open>n\<close> failures. When the loop body never runs the Python function falls off its end
  and returns \<^verbatim>\<open>None\<close>, here \<open>None\<close>.
\<close>

function run_check_loop ::
  "int \<Rightarrow> int \<Rightarrow> (nat \<Rightarrow> error + date list) \<Rightarrow> (date list \<times> (date \<times> date) list) option" where
  "run_check_loop retries maxr attempt =
     (if retries < maxr then
        (case attempt (nat retries) of
           Inr available_dates \<Rightarrow> Some (available_dates, find_consecutive_days available_dates)
         | Inl e \<Rightarrow>
             (if retries + 1 < maxr then run_check_loop (retries + 1) maxr attempt
              else Some ([], [])))
      else None)"
  by pat_completeness auto
termination
  by (relation "measure (\<lambda>(retries, maxr, _). nat (maxr - retries))") auto

declare run_check_loop.simps [simp del]

definition run_check ::
  "config \<Rightarrow> (nat \<Rightarrow> error + date list) \<Rightarrow> (date list \<times> (date \<times> date) list) option" where
  "run_check c attempt = run_check_loop 0 (max_retries c) attempt"

section \<open>The last-results file\<close>

text \<open>
  The file \<^verbatim>\<open>last_results.json\<close> is absent, present but not openable, present with
  text that \<^verbatim>\<open>json.load\<close> rejects, or present with a JSON value. The formatting and
  parsing of dates (\<^verbatim>\<open>date.isoformat\<close>, \<^verbatim>\<open>date.fromisoformat\<close>) belong to the
  standard library and are parameters; \<open>fromisoformat s = None\<close> is its
  \<^verbatim>\<open>ValueError\<close>.
\<close>

datatype json = JNull | JBool bool | JNum int | JStr string | JArr "json list"
  | JObj "(string \<times> json) list"

datatype file_state = Absent | Unreadable | Malformed | Parsed json

definition results_json ::
  "(date \<Rightarrow> string) \<Rightarrow> string \<Rightarrow> date list \<Rightarrow> (date \<times> date) list \<Rightarrow> json" where
  "results_json isoformat now available_dates consecutive_pairs =
     JObj [(''timestamp'', JStr now),
           (''available_dates'', JArr (map (\<lambda>d. JStr (isoformat d)) available_dates)),
           (''consecutive_pairs'',
              JArr (map (\<lambda>(d1, d2). JArr [JStr (isoformat d1), JStr (isoformat d2)])
                      consecutive_pairs))]"

definition save_results ::
  "(date \<Rightarrow> string) \<Rightarrow> string \<Rightarrow> bool \<Rightarrow> file_state \<Rightarrow> date list \<Rightarrow> (date \<times> date) list \<Rightarrow>
   file_state" where
  \<comment> \<open>\<open>writable\<close>: whether \<^verbatim>\<open>open("last_results.json", "w")\<close> succeeds. A failure is
      logged and the file stays as it was.\<close>
  "save_results isoformat now writable file available_dates consecutive_pairs =
     (if writable then Parsed (results_json isoformat now available_dates consecutive_pairs)
      else file)"

definition dict_keys :: "(string \<times> json) list \<Rightarrow> string list" where
  "dict_keys kvs = rev (remdups (rev (map fst kvs)))"

definition dict_get :: "json \<Rightarrow> string \<Rightarrow> json \<Rightarrow> error + json" where
  \<comment> \<open>\<^verbatim>\<open>data.get(key, default)\<close>: only a JSON object has \<^verbatim>\<open>get\<close>; of a repeated key
      the last value counts.\<close>
  "dict_get data key dflt =
     (case data of
        JObj kvs \<Rightarrow> Inr (case map_of (rev kvs) key of Some v \<Rightarrow> v | None \<Rightarrow> dflt)
      | _ \<Rightarrow> Inl AttributeError)"

definition py_iter :: "json \<Rightarrow> error + json list" where
  \<comment> \<open>Iterating a value: a list gives its items, a string its characters, an object its keys.\<close>
  "py_iter v =
     (case v of
        JArr xs \<Rightarrow> Inr xs
      | JStr s \<Rightarrow> Inr (map (\<lambda>c. JStr [c]) s)
      | JObj kvs \<Rightarrow> Inr (map JStr (dict_keys kvs))
      | _ \<Rightarrow> Inl TypeError)"

definition parse_date :: "(string \<Rightarrow> date option) \<Rightarrow> json \<Rightarrow> error + date" where
  "parse_date fromisoformat v =
     (case v of
        JStr s \<Rightarrow> (case fromisoformat s of None \<Rightarrow> Inl ValueError | Some d \<Rightarrow> Inr d)
      | _ \<Rightarrow> Inl TypeError)"

definition parse_pair :: "(string \<Rightarrow> date option) \<Rightarrow> json \<Rightarrow> error + date \<times> date" where
  \<comment> \<open>\<^verbatim>\<open>for d1, d2 in ...\<close>: the item is unpacked into exactly two values.\<close>
  "parse_pair fromisoformat v =
     (case py_iter v of
        Inl e \<Rightarrow> Inl e
      | Inr [d1, d2] \<Rightarrow>
          (case parse_date fromisoformat d1 of
             Inl e \<Rightarrow> Inl e
           | Inr date1 \<Rightarrow>
               (case parse_date fromisoformat d2 of
                  Inl e \<Rightarrow> Inl e
                | Inr date2 \<Rightarrow> Inr (date1, date2)))
      | Inr _ \<Rightarrow> Inl ValueError)"

fun traverse :: "('a \<Rightarrow> error + 'b) \<Rightarrow> 'a list \<Rightarrow> error + 'b list" where
  "traverse f [] = Inr []"
| "traverse f (x # xs) =
     (case f x of
        Inl e \<Rightarrow> Inl e
      | Inr y \<Rightarrow> (case traverse f xs of Inl e \<Rightarrow> Inl e | Inr ys \<Rightarrow> Inr (y # ys)))"

definition load_body ::
  "(string \<Rightarrow> date option) \<Rightarrow> file_state \<Rightarrow> error + date list \<times> (date \<times> date) list" where
  \<comment> \<open>The body of the \<^verbatim>\<open>try\<close> in \<^verbatim>\<open>load_last_results\<close>.\<close>
  "load_body fromisoformat file =
     (case file of
        Absent \<Rightarrow> Inr ([], [])
      | Unreadable \<Rightarrow> Inl OSError
      | Malformed \<Rightarrow> Inl JSONDecodeError
      | Parsed data \<Rightarrow>
          (case dict_get data ''available_dates'' (JArr []) of
             Inl e \<Rightarrow> Inl e
           | Inr ds \<Rightarrow>
          (case py_iter ds of
             Inl e \<Rightarrow> Inl e
           | Inr items \<Rightarrow>
          (case traverse (parse_date fromisoformat) items of
             Inl e \<Rightarrow> Inl e
           | Inr available_dates \<Rightarrow>
          (case dict_get data ''consecutive_pairs'' (JArr []) of
             Inl e \<Rightarrow> Inl e
           | Inr ps \<Rightarrow>
          (case py_iter ps of
             Inl e \<Rightarrow> Inl e
           | Inr pair_items \<Rightarrow>
          (case traverse (parse_pair fromisoformat) pair_items of
             Inl e \<Rightarrow> Inl e
           | Inr consecutive_pairs \<Rightarrow> Inr (available_dates, consecutive_pairs))))))))"

definition load_last_results ::
  "(string \<Rightarrow> date option) \<Rightarrow> file_state \<Rightarrow> date list \<times> (date \<times> date) list" where
  \<comment> \<open>\<^verbatim>\<open>except Exception\<close>: every error of the body becomes the empty result.\<close>
  "load_last_results fromisoformat file =
     (case load_body fromisoformat file of Inl e \<Rightarrow> ([], []) | Inr result \<Rightarrow> result)"

definition compare_results :: "(date set \<Rightarrow> date list) \<Rightarrow> date list \<Rightarrow> date list \<Rightarrow> date list" where
  \<comment> \<open>\<^verbatim>\<open>list(current_set - previous_set)\<close>; \<open>set_order\<close> is the order in which Python
      lists the elements of a set, which the language does not fix.\<close>
  "compare_results set_order current previous = set_order (set current - set previous)"

section \<open>Notification\<close>

text \<open>
  \<^verbatim>\<open>send_email_notification\<close> writes into the dictionary it is given, so the model
  returns the configuration as the caller finds it afterwards, next to the outcome.
  The SMTP exchanges are parameters; the text of the message body is left out.
\<close>

record email_message =
  subject :: string
  msg_from :: string
  msg_to :: string

datatype notify_outcome = Disabled | NoDates | MissingCredentials
  | Delivered email_message | DeliveryFailed

definition with_gmail :: "string \<Rightarrow> string" where
  "with_gmail addr = (if \<not> py_in ''@'' addr then addr @ ''@gmail.com'' else addr)"

definition send_email_notification ::
  "config \<Rightarrow> date list \<Rightarrow> (date \<times> date) list \<Rightarrow> (email_message \<Rightarrow> bool) \<Rightarrow>
   (email_message \<Rightarrow> bool) \<Rightarrow> config \<times> notify_outcome" where
  "send_email_notification c available_dates consecutive_pairs smtp_starttls smtp_ssl =
     (if \<not> enabled (email c) then (c, Disabled)
      else if available_dates = [] then (c, NoDates)
      else if username (email c) = [] \<or> password (email c) = [] then (c, MissingCredentials)
      else
        (let c' =
               (if from_address (email c) = [] \<or> to_address (email c) = [] then
                  c\<lparr>email := (email c)\<lparr>from_address := username (email c),
                                        to_address := username (email c)\<rparr>\<rparr>
                else c);
             msg = \<lparr> subject =
                       (if consecutive_pairs \<noteq> [] then consecutive_subject (email c')
                        else single_day_subject (email c')),
                     msg_from = with_gmail (from_address (email c')),
                     msg_to = with_gmail (to_address (email c')) \<rparr>
         in if smtp_starttls msg then (c', Delivered msg)
            else if smtp_ssl msg then (c', Delivered msg)
            else (c', DeliveryFailed)))"

section \<open>Scheduling\<close>

text \<open>
  Python's floats are taken as real numbers. \<^verbatim>\<open>random.uniform(a, b)\<close> is
  \<^verbatim>\<open>a + (b - a) * random()\<close> for a draw \<open>u\<close> of \<^verbatim>\<open>random()\<close>, which lies in
  \<open>[0, 1)\<close>; \<^verbatim>\<open>int(x)\<close> truncates towards zero.
\<close>

definition uniform :: "real \<Rightarrow> real \<Rightarrow> real \<Rightarrow> real" where
  "uniform a b u = a + (b - a) * u"

definition py_int :: "real \<Rightarrow> int" where
  "py_int x = (if 0 \<le> x then \<lfloor>x\<rfloor> else \<lceil>x\<rceil>)"

definition calculate_next_check_time :: "config \<Rightarrow> real \<Rightarrow> int" where
  "calculate_next_check_time c u =
     (let base_interval = check_interval_hours c * 3600;
          variation_percent = interval_variation_percent c;
          variation_seconds = base_interval * (variation_percent / 100);
          next_interval = uniform (base_interval - variation_seconds)
                                  (base_interval + variation_seconds) u
      in py_int (max 1800 next_interval))"

section \<open>One check cycle\<close>

record world =
  isoformat :: "date \<Rightarrow> string"
  now :: string
  writable :: bool
  attempt :: "nat \<Rightarrow> error + date list"
  set_order :: "date set \<Rightarrow> date list"
  smtp_starttls :: "email_message \<Rightarrow> bool"
  smtp_ssl :: "email_message \<Rightarrow> bool"

record checker_state =
  cfg :: config
  last_results :: file_state
  previous_available_dates :: "date list"
  previous_consecutive_pairs :: "(date \<times> date) list"

definition check_cycle :: "world \<Rightarrow> checker_state \<Rightarrow> checker_state" where
  \<comment> \<open>One pass through the \<^verbatim>\<open>try\<close> of \<^verbatim>\<open>run_availability_checker\<close>. Unpacking
      \<^verbatim>\<open>None\<close> raises \<^verbatim>\<open>TypeError\<close>, which the handler logs: nothing changes.\<close>
  "check_cycle w st =
     (case run_check (cfg st) (attempt w) of
        None \<Rightarrow> st
      | Some (available_dates, consecutive_pairs) \<Rightarrow>
          (let file = save_results (isoformat w) (now w) (writable w) (last_results st)
                        available_dates consecutive_pairs;
               new_dates = compare_results (set_order w) available_dates
                             (previous_available_dates st);
               new_consecutive = find_consecutive_days new_dates;
               c = (if new_dates \<noteq> [] then
                      fst (send_email_notification (cfg st) new_dates new_consecutive
                             (smtp_starttls w) (smtp_ssl w))
                    else cfg st)
           in \<lparr> cfg = c, last_results = file, previous_available_dates = available_dates,
                previous_consecutive_pairs = consecutive_pairs \<rparr>))"

section \<open>Properties of date generation, pairing and scheduling\<close>

lemma gwd_loop_works:
  assumes "current \<le> end_date + 1" "end_date < MAXORD" "MINORD \<le> current"
  shows "gwd_loop current end_date acc =
         Inr (acc @ filter (\<lambda>d. weekday d \<in> {4, 5, 6}) [current..end_date])"
  using assms
proof (induction current end_date acc rule: gwd_loop.induct)
  case (1 current end_date weekend_dates)
  show ?case
  proof (cases "current \<le> end_date")
    case False
    with "1.prems" show ?thesis by (simp add: gwd_loop.simps[of current])
  next
    case True
    have step: "date_add current 1 = Inr (current + 1)"
      using True "1.prems" by (simp add: date_add_def timedelta_def MINORD_def)
    have up: "[current..end_date] = current # [current + 1..end_date]"
      using True by (simp add: upto_rec1)
    let ?acc = "if weekday current \<in> set [4, 5, 6] then weekend_dates @ [current] else weekend_dates"
    have ih: "gwd_loop (current + 1) end_date ?acc =
          Inr (?acc @ filter (\<lambda>d. weekday d \<in> {4, 5, 6}) [current + 1..end_date])"
      using True "1.prems" by (intro "1.IH"[OF True refl step]) (simp_all add: MINORD_def)
    show ?thesis
      unfolding gwd_loop.simps[of current] up using True step ih by (simp add: Let_def)
  qed
qed

lemma gwd_loop_past: "end_date < current \<Longrightarrow> gwd_loop current end_date acc = Inr acc"
  by (simp add: gwd_loop.simps[of current])

lemma get_weekend_dates_in_range:
  assumes "MINORD \<le> today" "today < MAXORD" "MINORD \<le> today + 30 * H" "today + 30 * H < MAXORD"
  shows "get_weekend_dates today H =
         Inr (filter (\<lambda>d. weekday d \<in> {4, 5, 6}) [today..today + 30 * H])"
proof -
  have "\<bar>30 * H\<bar> \<le> 999999999"
    using assms by (simp add: MINORD_def MAXORD_def)
  then have e: "date_add today (30 * H) = Inr (today + 30 * H)"
    using assms by (simp add: date_add_def timedelta_def)
  show ?thesis
  proof (cases "today \<le> today + 30 * H")
    case True
    then show ?thesis
      using assms e gwd_loop_works[of today "today + 30 * H" "[]"]
      by (simp add: get_weekend_dates_def)
  next
    case False
    then show ?thesis
      using e gwd_loop_past[of "today + 30 * H" today "[]"]
      by (simp add: get_weekend_dates_def)
  qed
qed

text \<open>
  Claim C5, as the code has it: whenever today and the end of the horizon,
  today + 30 * H days, are both representable dates before \<^verbatim>\<open>date.max\<close>,
  \<^verbatim>\<open>get_weekend_dates\<close> returns a list that is strictly ascending and free of
  duplicates and holds exactly the Fridays, Saturdays and Sundays from today to the end of
  the horizon; for H = 0 or negative the list is empty or is today alone.
\<close>

theorem get_weekend_dates_amended:
  assumes "MINORD \<le> today" "today < MAXORD" "MINORD \<le> today + 30 * H" "today + 30 * H < MAXORD"
  shows "\<exists>ds. get_weekend_dates today H = Inr ds \<and> sorted_wrt (<) ds \<and> distinct ds \<and>
              set ds = {d. today \<le> d \<and> d \<le> today + 30 * H \<and> weekday d \<in> {4, 5, 6}} \<and>
              (H \<le> 0 \<longrightarrow> ds = [] \<or> ds = [today])"
proof -
  let ?ds = "filter (\<lambda>d. weekday d \<in> {4, 5, 6}) [today..today + 30 * H]"
  have 1: "get_weekend_dates today H = Inr ?ds"
    using assms by (rule get_weekend_dates_in_range)
  have 2: "sorted_wrt (<) ?ds"
    by (rule sorted_wrt_filter) simp
  have 3: "distinct ?ds"
    by simp
  have 4: "set ?ds = {d. today \<le> d \<and> d \<le> today + 30 * H \<and> weekday d \<in> {4, 5, 6}}"
    by auto
  have 5: "H \<le> 0 \<longrightarrow> ?ds = [] \<or> ?ds = [today]"
  proof
    assume "H \<le> 0"
    then consider "H = 0" | "today + 30 * H < today" by linarith
    then show "?ds = [] \<or> ?ds = [today]"
    proof cases
      case 1
      then show ?thesis by simp
    next
      case 2
      then show ?thesis by simp
    qed
  qed
  from 1 2 3 4 5 show ?thesis by blast
qed

text \<open>The hypotheses of C5 hold for Friday 2025-04-04 and a horizon of one month.\<close>

theorem get_weekend_dates_amended_witness:
  "MINORD \<le> 739345 \<and> 739345 < MAXORD \<and> MINORD \<le> 739345 + 30 * 1 \<and> 739345 + 30 * 1 < MAXORD \<and>
   (\<exists>ds. get_weekend_dates 739345 1 = Inr ds \<and> sorted_wrt (<) ds \<and> distinct ds \<and>
              set ds = {d. 739345 \<le> d \<and> d \<le> 739345 + 30 * 1 \<and> weekday d \<in> {4, 5, 6}} \<and>
              ((1::int) \<le> 0 \<longrightarrow> ds = [] \<or> ds = [739345]))"
  using get_weekend_dates_amended[of 739345 1] by (simp add: MINORD_def MAXORD_def)

text \<open>
  Claim C5 as stated, for every horizon: from Friday 2025-04-04 a horizon of 200000
  months ends after \<^verbatim>\<open>date.max\<close> and one of -200000 months before
  \<^verbatim>\<open>date.min\<close>, and the date addition raises \<^verbatim>\<open>OverflowError\<close>.
\<close>

theorem get_weekend_dates_counterexample:
  "get_weekend_dates 739345 200000 = Inl OverflowError \<and>
   get_weekend_dates 739345 (- 200000) = Inl OverflowError"
  by (simp add: get_weekend_dates_def date_add_def timedelta_def MAXORD_def MINORD_def)

lemma fcd_loop_filter:
  "fcd_loop ds is acc =
   acc @ filter (\<lambda>(date1, date2). date2 - date1 = 1 \<and>
                   ((weekday date1 = 4 \<and> weekday date2 = 5) \<or> (weekday date1 = 5 \<and> weekday date2 = 6)))
           (map (\<lambda>i. (ds ! i, ds ! (i + 1))) is)"
  by (induction "is" arbitrary: acc) (simp_all add: Let_def days_between_def)

lemma adjacent_zip: "map (\<lambda>i. (ds ! i, ds ! (i + 1))) [0 ..< length ds - 1] = zip ds (tl ds)"
  by (rule nth_equalityI) (simp_all add: nth_tl)

text \<open>
  Claim C6: \<^verbatim>\<open>find_consecutive_days\<close> returns, in order, exactly the pairs of
  positionally adjacent elements that are one day apart and are (Friday, Saturday) or
  (Saturday, Sunday); a list of fewer than two dates gives no pair; and
  Fri 2025-04-04, Sat 2025-04-05, Sun 2025-04-06 give the two pairs (4/4, 4/5) and
  (4/5, 4/6). The equation holds for every list, sorted or not.
\<close>

theorem find_consecutive_days_spec:
  "find_consecutive_days ds =
     filter (\<lambda>(date1, date2). date2 - date1 = 1 \<and>
               ((weekday date1 = 4 \<and> weekday date2 = 5) \<or> (weekday date1 = 5 \<and> weekday date2 = 6)))
       (zip ds (tl ds)) \<and>
   (length ds < 2 \<longrightarrow> find_consecutive_days ds = []) \<and>
   find_consecutive_days [739345, 739346, 739347] = [(739345, 739346), (739346, 739347)]"
proof -
  have a: "find_consecutive_days xs =
     filter (\<lambda>(date1, date2). date2 - date1 = 1 \<and>
               ((weekday date1 = 4 \<and> weekday date2 = 5) \<or> (weekday date1 = 5 \<and> weekday date2 = 6)))
       (zip xs (tl xs))" for xs
    unfolding find_consecutive_days_def fcd_loop_filter adjacent_zip by simp
  have b: "length ds < 2 \<longrightarrow> find_consecutive_days ds = []"
  proof
    assume "length ds < 2"
    then show "find_consecutive_days ds = []"
      unfolding a by (cases ds) auto
  qed
  have c: "find_consecutive_days [739345, 739346, 739347] = [(739345, 739346), (739346, 739347)]"
    by (simp add: a weekday_def)
  from a b c show ?thesis by blast
qed

text \<open>A list of one date has fewer than two elements and gives no pair.\<close>

theorem find_consecutive_days_spec_witness:
  "length [739345 :: int] < 2 \<and> find_consecutive_days [739345] = []"
  using find_consecutive_days_spec[of "[739345]"] by simp

text \<open>
  Claim C7: for every draw \<open>u\<close> in \<open>[0, 1)\<close>, with an interval of 3 hours and a
  variation of 20 percent the delay lies between max(1800, 3 * 3600 * 0.8) and
  3 * 3600 * 1.2 seconds, and for every configuration it is at least 1800 seconds.
\<close>

theorem calculate_next_check_time_bounds:
  assumes "0 \<le> u" "u < 1"
  shows "(check_interval_hours c = 3 \<and> interval_variation_percent c = 20 \<longrightarrow>
            max 1800 (3 * 3600 * 0.8) \<le> real_of_int (calculate_next_check_time c u) \<and>
            real_of_int (calculate_next_check_time c u) \<le> 3 * 3600 * 1.2) \<and>
         1800 \<le> calculate_next_check_time c u"
proof -
  have low: "1800 \<le> py_int (max 1800 x)" for x :: real
  proof -
    have "(1800::real) \<le> max 1800 x" by simp
    then have "1800 \<le> \<lfloor>max 1800 x\<rfloor>" by linarith
    then show ?thesis by (simp add: py_int_def)
  qed
  have spec: "max 1800 (3 * 3600 * 0.8) \<le> real_of_int (calculate_next_check_time c u) \<and>
        real_of_int (calculate_next_check_time c u) \<le> 3 * 3600 * 1.2"
    if h: "check_interval_hours c = 3" "interval_variation_percent c = 20"
  proof -
    let ?x = "8640 + 4320 * u"
    have x: "calculate_next_check_time c u = \<lfloor>?x\<rfloor>"
      using h assms by (simp add: calculate_next_check_time_def uniform_def py_int_def Let_def max_def)
    have "8640 \<le> ?x" "?x < 12960" using assms by simp_all
    then have "8640 \<le> \<lfloor>?x\<rfloor>" "\<lfloor>?x\<rfloor> \<le> 12960" by linarith+
    then show ?thesis unfolding x by simp
  qed
  show ?thesis
    using spec low by (simp add: calculate_next_check_time_def Let_def)
qed

text \<open>The default configuration and the draw 1/2.\<close>

theorem calculate_next_check_time_bounds_witness:
  "(0::real) \<le> 1 / 2 \<and> (1 / 2 :: real) < 1 \<and>
   check_interval_hours DEFAULT_CONFIG = 3 \<and> interval_variation_percent DEFAULT_CONFIG = 20 \<and>
   max 1800 (3 * 3600 * 0.8) \<le> real_of_int (calculate_next_check_time DEFAULT_CONFIG (1 / 2)) \<and>
   real_of_int (calculate_next_check_time DEFAULT_CONFIG (1 / 2)) \<le> 3 * 3600 * 1.2 \<and>
   1800 \<le> calculate_next_check_time DEFAULT_CONFIG (1 / 2)"
  using calculate_next_check_time_bounds[of "1 / 2" DEFAULT_CONFIG]
  by (simp add: DEFAULT_CONFIG_def)

section \<open>Properties of the availability classifiers\<close>

lemma py_in_sublist: "py_in phrase s \<longleftrightarrow> sublist phrase s"
  by (induction s) (auto simp: sublist_Cons_right)

lemma py_in_lower: "py_in phrase s \<Longrightarrow> py_in (lower phrase) (lower s)"
  unfolding py_in_sublist lower_def by (rule map_mono_sublist)

lemma py_in_trans: "py_in a b \<Longrightarrow> py_in b s \<Longrightarrow> py_in a s"
  unfolding py_in_sublist by (rule sublist_order.order.trans)

lemma any_inI: "phrase \<in> set phrases \<Longrightarrow> py_in phrase text \<Longrightarrow> any_in phrases text"
  by (auto simp: any_in_def list_ex_iff)

lemma blocked_has_error:
  assumes "py_in ''Action Not Allowed'' (page_source p)"
  shows "has_error p"
proof -
  have "py_in (lower (lower ''Action Not Allowed'')) (lower (lower (page_source p)))"
    using assms by (intro py_in_lower)
  moreover have "lower (lower ''Action Not Allowed'') = ''action not allowed''"
    by code_simp
  ultimately have "py_in ''action not allowed'' (lower (lower (page_source p)))"
    by simp
  then show ?thesis
    unfolding has_error_def by (rule any_inI[rotated]) (simp add: error_phrases_def)
qed

lemma price_has_dollar_sign:
  assumes "py_in ''$199'' (soup_text r)"
  shows "has_dollar_sign r"
proof -
  have "py_in ''$'' ''$199''" by simp
  then have "py_in ''$'' (soup_text r)" using assms by (rule py_in_trans)
  then have "py_in (lower ''$'') (lower (soup_text r))" by (rule py_in_lower)
  moreover have "lower ''$'' = ''$''" by code_simp
  ultimately show ?thesis by (simp add: has_dollar_sign_def)
qed

text \<open>
  Claim C4, as the code has it: the Selenium classifier classifies every page whose
  content contains "Action Not Allowed" as unavailable, whatever else the page shows.
  The Requests classifier has no blocking-phrase check: page text that contains a price
  such as "$199" is classified available.
\<close>

theorem blocking_phrase_selenium_only:
  "(py_in ''Action Not Allowed'' (page_source p) \<longrightarrow> \<not> true_availability p) \<and>
   (py_in ''$199'' (soup_text r) \<longrightarrow> has_availability r)"
  using blocked_has_error[of p] price_has_dollar_sign[of r]
  by (auto simp: true_availability_def has_availability_def)

text \<open>
  A blocked page with a price for the Selenium classifier, and a page with a price for
  the Requests classifier.
\<close>

theorem blocking_phrase_selenium_only_witness:
  "py_in ''Action Not Allowed''
     (page_source \<lparr> current_url = ''https://reservations.ahlsmsworld.com/Yosemite/Search/Results'',
        page_source = ''<html><head></head><body>Action Not Allowed $199</body></html>'',
        page_title = ''Results'', results_heading_elements = 0, book_button_elements = 0,
        price_element_counts = Inr (1, 0, 0), room_detail_elements = 0 \<rparr>) \<and>
   \<not> true_availability
     \<lparr> current_url = ''https://reservations.ahlsmsworld.com/Yosemite/Search/Results'',
        page_source = ''<html><head></head><body>Action Not Allowed $199</body></html>'',
        page_title = ''Results'', results_heading_elements = 0, book_button_elements = 0,
        price_element_counts = Inr (1, 0, 0), room_detail_elements = 0 \<rparr> \<and>
   py_in ''$199''
     (soup_text \<lparr> soup_text = ''Rooms from $199'', rate_elements = 0, book_buttons = 0,
        price_elements = 1 \<rparr>) \<and>
   has_availability
     \<lparr> soup_text = ''Rooms from $199'', rate_elements = 0, book_buttons = 0, price_elements = 1 \<rparr>"
proof -
  let ?p = "\<lparr> current_url = ''https://reservations.ahlsmsworld.com/Yosemite/Search/Results'',
        page_source = ''<html><head></head><body>Action Not Allowed $199</body></html>'',
        page_title = ''Results'', results_heading_elements = 0, book_button_elements = 0,
        price_element_counts = Inr (1, 0, 0), room_detail_elements = 0 \<rparr>"
  let ?r = "\<lparr> soup_text = ''Rooms from $199'', rate_elements = 0, book_buttons = 0,
        price_elements = 1 \<rparr>"
  have h1: "py_in ''Action Not Allowed'' (page_source ?p)" by simp
  have h2: "py_in ''$199'' (soup_text ?r)" by simp
  show ?thesis
    using blocking_phrase_selenium_only[of ?p ?r] h1 h2 by blast
qed

text \<open>
  Claim C4 as stated, for either variant: the text "Action Not Allowed $199" contains
  the blocking phrase, and the Requests classifier classifies it available.
\<close>

theorem blocking_phrase_requests_counterexample:
  "py_in ''Action Not Allowed''
     (soup_text \<lparr> soup_text = ''Action Not Allowed $199'', rate_elements = 0, book_buttons = 0,
        price_elements = 1 \<rparr>) \<and>
   has_availability
     \<lparr> soup_text = ''Action Not Allowed $199'', rate_elements = 0, book_buttons = 0,
        price_elements = 1 \<rparr>"
  by (simp add: has_availability_def)

text \<open>
  Claim C1, as the code has it: on equivalent page content a Selenium verdict
  "available" implies a Requests verdict "available", and the two verdicts are equal
  whenever the Selenium variant sees a results page with no blocking phrase and no
  no-availability phrase. Both variants require a positive signal; the phrase checks
  and the results-page requirement are applied by the Selenium variant alone.
\<close>

theorem classifiers_on_equivalent_content:
  assumes "equivalent_content p r"
  shows "(true_availability p \<longrightarrow> has_availability r) \<and>
         (is_results_page p \<and> \<not> no_availability_found p \<and> \<not> has_error p \<longrightarrow>
            true_availability p = has_availability r)"
  using assms by (auto simp: equivalent_content_def true_availability_def has_availability_def)

text \<open>
  Claim C1 as stated: the content "Action Not Allowed $199" is presented equivalently
  to both variants; the Selenium classifier answers unavailable and the Requests
  classifier available.
\<close>

theorem classifiers_differ_counterexample:
  "equivalent_content
     \<lparr> current_url = ''https://reservations.ahlsmsworld.com/Yosemite/Search/Results'',
        page_source = ''<html><head></head><body>Action Not Allowed $199</body></html>'',
        page_title = ''Results'', results_heading_elements = 0, book_button_elements = 0,
        price_element_counts = Inr (1, 0, 0), room_detail_elements = 0 \<rparr>
     \<lparr> soup_text = ''Action Not Allowed $199'', rate_elements = 0, book_buttons = 0,
        price_elements = 1 \<rparr> \<and>
   true_availability
     \<lparr> current_url = ''https://reservations.ahlsmsworld.com/Yosemite/Search/Results'',
        page_source = ''<html><head></head><body>Action Not Allowed $199</body></html>'',
        page_title = ''Results'', results_heading_elements = 0, book_button_elements = 0,
        price_element_counts = Inr (1, 0, 0), room_detail_elements = 0 \<rparr> \<noteq>
   has_availability
     \<lparr> soup_text = ''Action Not Allowed $199'', rate_elements = 0, book_buttons = 0,
        price_elements = 1 \<rparr>"
  by code_simp

text \<open>
  A results page showing "$249 average/night", presented to both variants, is
  classified available by both.
\<close>

theorem classifiers_on_equivalent_content_witness:
  "equivalent_content
     \<lparr> current_url = ''https://reservations.ahlsmsworld.com/Yosemite/Search/Results'',
        page_source = ''<html><head></head><body>$249 average/night</body></html>'',
        page_title = ''Results'', results_heading_elements = 0, book_button_elements = 0,
        price_element_counts = Inr (1, 0, 0), room_detail_elements = 0 \<rparr>
     \<lparr> soup_text = ''$249 average/night'', rate_elements = 0, book_buttons = 0,
        price_elements = 1 \<rparr> \<and>
   true_availability
     \<lparr> current_url = ''https://reservations.ahlsmsworld.com/Yosemite/Search/Results'',
        page_source = ''<html><head></head><body>$249 average/night</body></html>'',
        page_title = ''Results'', results_heading_elements = 0, book_button_elements = 0,
        price_element_counts = Inr (1, 0, 0), room_detail_elements = 0 \<rparr> \<and>
   has_availability
     \<lparr> soup_text = ''$249 average/night'', rate_elements = 0, book_buttons = 0,
        price_elements = 1 \<rparr>"
proof -
  let ?p = "\<lparr> current_url = ''https://reservations.ahlsmsworld.com/Yosemite/Search/Results'',
        page_source = ''<html><head></head><body>$249 average/night</body></html>'',
        page_title = ''Results'', results_heading_elements = 0, book_button_elements = 0,
        price_element_counts = Inr (1, 0, 0), room_detail_elements = 0 \<rparr>"
  let ?r = "\<lparr> soup_text = ''$249 average/night'', rate_elements = 0, book_buttons = 0,
        price_elements = 1 \<rparr>"
  have e: "equivalent_content ?p ?r" by code_simp
  have t: "true_availability ?p" by code_simp
  show ?thesis
    using classifiers_on_equivalent_content[OF e] e t by blast
qed

section \<open>Properties of the probing pass\<close>

lemma check_loop_weekdays:
  assumes "\<forall>d \<in> set (fst st). weekday d = 4 \<or> weekday d = 5"
  shows "\<forall>d \<in> set (fst (check_loop c probe wds is st)). weekday d = 4 \<or> weekday d = 5"
  using assms
proof (induction "is" arbitrary: st)
  case Nil
  then show ?case by (cases st) simp
next
  case (Cons i "is")
  obtain a q where st: "st = (a, q)" by (cases st)
  have a: "\<forall>d \<in> set a. weekday d = 4 \<or> weekday d = 5"
    using Cons.prems st by simp
  show ?case
  proof (cases "date_add (wds ! i) 1")
    case (Inl e)
    then show ?thesis using a st by simp
  next
    case (Inr co)
    have skip: "\<forall>d \<in> set (fst (check_loop c probe wds is (a, q))). weekday d = 4 \<or> weekday d = 5"
      by (rule Cons.IH) (simp add: a)
    have skip2: "\<forall>d \<in> set (fst (check_loop c probe wds is (a, q @ [(wds ! i, co)]))). weekday d = 4 \<or> weekday d = 5"
      by (rule Cons.IH) (simp add: a)
    have take: "weekday (wds ! i) = 4 \<or> weekday (wds ! i) = 5 \<Longrightarrow>
      \<forall>d \<in> set (fst (check_loop c probe wds is (a @ [wds ! i], q @ [(wds ! i, co)]))). weekday d = 4 \<or> weekday d = 5"
      by (rule Cons.IH) (simp add: a)
    show ?thesis
    proof (cases "weekday (wds ! i) = 4 \<or> weekday (wds ! i) = 5")
      case False
      then show ?thesis using skip Inr st by simp
    next
      case True
      show ?thesis
      proof (cases "probe (wds ! i) co")
        case (Inl e)
        then show ?thesis using skip skip2 Inr st True by (simp add: Let_def)
      next
        case r: (Inr b)
        then show ?thesis using skip skip2 take[OF True] Inr st True
          by (cases b) (simp_all add: Let_def)
      qed
    qed
  qed
qed


text \<open>
  Claim C9: every date in the list returned by either checker's
  \<^verbatim>\<open>check_availability\<close> is a Friday or a Saturday; no Sunday is ever appended.
\<close>

theorem available_dates_friday_saturday:
  "(selenium_check_availability c today launch fetch quit = Inr (available_dates, probed) \<longrightarrow>
      (\<forall>d \<in> set available_dates. weekday d = 4 \<or> weekday d = 5)) \<and>
   (requests_check_availability c today main_page fetch' = Inr (available_dates', probed') \<longrightarrow>
      (\<forall>d \<in> set available_dates'. weekday d = 4 \<or> weekday d = 5))"
proof -
  have loop: "\<forall>d \<in> set (fst (check_loop c probe wds is ([], []))). weekday d = 4 \<or> weekday d = 5"
    for probe wds "is"
    by (rule check_loop_weekdays) simp
  have s: "\<forall>d \<in> set available_dates. weekday d = 4 \<or> weekday d = 5"
    if h: "selenium_check_availability c today launch fetch quit = Inr (available_dates, probed)"
  proof -
    from h obtain wds where
      "check_loop c (selenium_probe fetch) wds [0 ..< length wds - 1] ([], []) = (available_dates, probed)"
      unfolding selenium_check_availability_def Let_def
      by (simp split: sum.splits)
    with loop[of "selenium_probe fetch" wds "[0 ..< length wds - 1]"] show ?thesis by simp
  qed
  have r: "\<forall>d \<in> set available_dates'. weekday d = 4 \<or> weekday d = 5"
    if h: "requests_check_availability c today main_page fetch' = Inr (available_dates', probed')"
  proof (cases main_page)
    case (Inl e)
    with h have "available_dates' = []"
      unfolding requests_check_availability_def by (simp split: sum.splits)
    then show ?thesis by simp
  next
    case (Inr u)
    with h obtain wds where
      "check_loop c (requests_probe fetch') wds [0 ..< length wds - 1] ([], []) = (available_dates', probed')"
      unfolding requests_check_availability_def by (simp split: sum.splits)
    with loop[of "requests_probe fetch'" wds "[0 ..< length wds - 1]"] show ?thesis by simp
  qed
  from s r show ?thesis by blast
qed


text \<open>
  From Friday 2025-04-04 with a horizon of one month and a site that shows a price for
  every date, both checkers return the same ten Fridays and Saturdays.
\<close>

theorem available_dates_friday_saturday_witness:
  "selenium_check_availability (DEFAULT_CONFIG\<lparr>months_ahead := 1\<rparr>) 739345 (\<lambda>b. Inr ())
     (\<lambda>d1 d2. Inr \<lparr> current_url = ''https://reservations.ahlsmsworld.com/Yosemite/Plan-Your-Trip'',
        page_source = ''$249 average/night'',
        page_title = ''Results'', results_heading_elements = 0, book_button_elements = 0,
        price_element_counts = Inr (1, 0, 0), room_detail_elements = 0 \<rparr>) (Inr ()) =
     Inr ([739345, 739346, 739352, 739353, 739359, 739360, 739366, 739367, 739373, 739374],
          [(739345, 739346), (739346, 739347), (739352, 739353), (739353, 739354),
           (739359, 739360), (739360, 739361), (739366, 739367), (739367, 739368),
           (739373, 739374), (739374, 739375)]) \<and>
   requests_check_availability (DEFAULT_CONFIG\<lparr>months_ahead := 1\<rparr>) 739345 (Inr ())
     (\<lambda>d1 d2. Inr \<lparr> soup_text = ''$249 average/night'', rate_elements = 0, book_buttons = 0,
        price_elements = 1 \<rparr>) =
     Inr ([739345, 739346, 739352, 739353, 739359, 739360, 739366, 739367, 739373, 739374],
          [(739345, 739346), (739346, 739347), (739352, 739353), (739353, 739354),
           (739359, 739360), (739360, 739361), (739366, 739367), (739367, 739368),
           (739373, 739374), (739374, 739375)]) \<and>
   map weekday [739345, 739346, 739352, 739353, 739359, 739360, 739366, 739367, 739373, 739374] =
     [4, 5, 4, 5, 4, 5, 4, 5, 4, 5]"
proof -
  let ?c = "DEFAULT_CONFIG\<lparr>months_ahead := 1\<rparr>"
  let ?f = "\<lambda>(d1::date) (d2::date). (Inr \<lparr> current_url = ''https://reservations.ahlsmsworld.com/Yosemite/Plan-Your-Trip'',
        page_source = ''$249 average/night'',
        page_title = ''Results'', results_heading_elements = 0, book_button_elements = 0,
        price_element_counts = Inr (1, 0, 0), room_detail_elements = 0 \<rparr> :: error + selenium_page)"
  let ?g = "\<lambda>(d1::date) (d2::date). (Inr \<lparr> soup_text = ''$249 average/night'', rate_elements = 0, book_buttons = 0,
        price_elements = 1 \<rparr> :: error + requests_page)"
  let ?ds = "[739345, 739346, 739352, 739353, 739359, 739360, 739366, 739367, 739373, 739374] :: date list"
  let ?ps = "[(739345, 739346), (739346, 739347), (739352, 739353), (739353, 739354),
           (739359, 739360), (739360, 739361), (739366, 739367), (739367, 739368),
           (739373, 739374), (739374, 739375)] :: (date \<times> date) list"
  have s: "selenium_check_availability ?c 739345 (\<lambda>b. Inr ()) ?f (Inr ()) = Inr (?ds, ?ps)"
    by code_simp
  have r: "requests_check_availability ?c 739345 (Inr ()) ?g = Inr (?ds, ?ps)"
    by code_simp
  show ?thesis
    using available_dates_friday_saturday[of ?c 739345 "\<lambda>b. Inr ()" ?f "Inr ()" ?ds ?ps "Inr ()" ?g ?ds ?ps] s r
    by (simp add: weekday_def)
qed


lemma check_loop_probed:
  "snd (check_loop c probe wds is (a, q)) =
   snd (check_loop c (\<lambda>d1 d2. Inl WebDriverException) wds is ([], q))"
proof (induction "is" arbitrary: a q)
  case Nil
  show ?case by simp
next
  case (Cons i "is")
  show ?case
  proof (cases "date_add (wds ! i) 1")
    case (Inl e)
    then show ?thesis by simp
  next
    case (Inr co)
    show ?thesis
    proof (cases "probe (wds ! i) co")
      case (Inl e)
      then show ?thesis using Inr Cons.IH by (simp add: Let_def)
    next
      case r: (Inr b)
      then show ?thesis using Inr Cons.IH by (cases b) (simp_all add: Let_def)
    qed
  qed
qed

text \<open>
  Claim C3, which says that every qualifying date of the generated sequence, its last
  element included, is probed. With the default configuration on Sunday 2025-04-06 the
  generated sequence ends with Friday 2025-10-03 and Friday pairs are enabled, yet the
  pair (2025-10-03, 2025-10-04) is probed by neither checker, whatever the site
  answers: the loop runs over \<^verbatim>\<open>range(len(weekend_dates) - 1)\<close>.
\<close>

theorem last_weekend_date_not_probed:
  "\<exists>wds available_dates probed available_dates' probed'.
     get_weekend_dates 739347 (months_ahead DEFAULT_CONFIG) = Inr wds \<and>
     last wds = 739527 \<and> weekday 739527 = 4 \<and> check_friday_saturday DEFAULT_CONFIG \<and>
     selenium_check_availability DEFAULT_CONFIG 739347 (\<lambda>b. Inr ()) fetch (Inr ()) =
       Inr (available_dates, probed) \<and>
     (739527, 739528) \<notin> set probed \<and>
     requests_check_availability DEFAULT_CONFIG 739347 (Inr ()) fetch' =
       Inr (available_dates', probed') \<and>
     (739527, 739528) \<notin> set probed'"
proof -
  have "case get_weekend_dates 739347 6 of
          Inr wds \<Rightarrow> last wds = 739527 \<and>
            (739527, 739528) \<notin> set (snd (check_loop DEFAULT_CONFIG (\<lambda>d1 d2. Inl WebDriverException) wds
                [0 ..< length wds - 1] ([], [])))
        | Inl e \<Rightarrow> False"
    by code_simp
  then obtain wds where g: "get_weekend_dates 739347 6 = Inr wds" and l: "last wds = 739527"
    and n: "(739527, 739528) \<notin> set (snd (check_loop DEFAULT_CONFIG (\<lambda>d1 d2. Inl WebDriverException) wds
                [0 ..< length wds - 1] ([], [])))"
    by (auto split: sum.splits)
  have m: "months_ahead DEFAULT_CONFIG = 6" and f: "check_friday_saturday DEFAULT_CONFIG"
    by (simp_all add: DEFAULT_CONFIG_def)
  have b: "setup_browser DEFAULT_CONFIG (\<lambda>b. Inr ()) = Inr ()"
    by code_simp
  have w: "weekday 739527 = 4"
    by (simp add: weekday_def)
  let ?s = "check_loop DEFAULT_CONFIG (selenium_probe fetch) wds [0 ..< length wds - 1] ([], [])"
  let ?r = "check_loop DEFAULT_CONFIG (requests_probe fetch') wds [0 ..< length wds - 1] ([], [])"
  have s: "selenium_check_availability DEFAULT_CONFIG 739347 (\<lambda>b. Inr ()) fetch (Inr ()) =
             Inr (fst ?s, snd ?s)"
    unfolding selenium_check_availability_def b m g by (simp add: Let_def)
  have r: "requests_check_availability DEFAULT_CONFIG 739347 (Inr ()) fetch' = Inr (fst ?r, snd ?r)"
    unfolding requests_check_availability_def m g by simp
  have ns: "(739527, 739528) \<notin> set (snd ?s)"
    using n unfolding check_loop_probed[of DEFAULT_CONFIG "selenium_probe fetch"] .
  have nr: "(739527, 739528) \<notin> set (snd ?r)"
    using n unfolding check_loop_probed[of DEFAULT_CONFIG "requests_probe fetch'"] .
  from g l w f s ns r nr show ?thesis
    unfolding m by blast
qed

section \<open>Properties of the notifier\<close>

text \<open>
  Claim C10: when e-mail is enabled, there is a date to report, user name and password are
  present, and the sender or the recipient address is empty, the configuration the caller
  holds after \<^verbatim>\<open>send_email_notification\<close> is the one it passed with both addresses
  set to the user name; no other field differs, whatever the mail servers answer.
\<close>

theorem notifier_fills_addresses:
  assumes "enabled (email c)" and "available_dates \<noteq> []"
    and "username (email c) \<noteq> []" and "password (email c) \<noteq> []"
    and "from_address (email c) = [] \<or> to_address (email c) = []"
  shows "fst (send_email_notification c available_dates consecutive_pairs starttls ssl) =
         c\<lparr>email := (email c)\<lparr>from_address := username (email c),
                               to_address := username (email c)\<rparr>\<rparr>"
  using assms by (auto simp: send_email_notification_def Let_def)

text \<open>
  The default configuration with credentials filled in and both addresses empty.
\<close>

theorem notifier_fills_addresses_witness:
  "enabled (email (DEFAULT_CONFIG\<lparr>email := (email DEFAULT_CONFIG)\<lparr>username := ''ranger'', password := ''secret''\<rparr>\<rparr>)) \<and>
   [739345 :: date] \<noteq> [] \<and>
   username (email (DEFAULT_CONFIG\<lparr>email := (email DEFAULT_CONFIG)\<lparr>username := ''ranger'', password := ''secret''\<rparr>\<rparr>)) \<noteq> [] \<and>
   password (email (DEFAULT_CONFIG\<lparr>email := (email DEFAULT_CONFIG)\<lparr>username := ''ranger'', password := ''secret''\<rparr>\<rparr>)) \<noteq> [] \<and>
   from_address (email (DEFAULT_CONFIG\<lparr>email := (email DEFAULT_CONFIG)\<lparr>username := ''ranger'', password := ''secret''\<rparr>\<rparr>)) = [] \<and>
   fst (send_email_notification
          (DEFAULT_CONFIG\<lparr>email := (email DEFAULT_CONFIG)\<lparr>username := ''ranger'', password := ''secret''\<rparr>\<rparr>)
          [739345] [] (\<lambda>m. True) (\<lambda>m. True)) =
   DEFAULT_CONFIG\<lparr>email := (email DEFAULT_CONFIG)\<lparr>username := ''ranger'', password := ''secret'',
                                                 from_address := ''ranger'', to_address := ''ranger''\<rparr>\<rparr>"
  using notifier_fills_addresses[of
      "DEFAULT_CONFIG\<lparr>email := (email DEFAULT_CONFIG)\<lparr>username := ''ranger'', password := ''secret''\<rparr>\<rparr>"
      "[739345]" "[]" "\<lambda>m. True" "\<lambda>m. True"]
  by (simp add: DEFAULT_CONFIG_def)

section \<open>Properties of the last-results file\<close>

lemma traverse_dates:
  "\<forall>d \<in> set ds. read_date (fmt_date d) = Some d \<Longrightarrow>
   traverse (parse_date read_date) (map (\<lambda>d. JStr (fmt_date d)) ds) = Inr ds"
  by (induction ds) (simp_all add: parse_date_def)

lemma parse_pair_saved:
  "read_date (fmt_date d1) = Some d1 \<Longrightarrow> read_date (fmt_date d2) = Some d2 \<Longrightarrow>
   parse_pair read_date (JArr [JStr (fmt_date d1), JStr (fmt_date d2)]) = Inr (d1, d2)"
  by (simp add: parse_pair_def parse_date_def py_iter_def)

lemma traverse_fails:
  "x \<in> set xs \<Longrightarrow> f x = Inl e \<Longrightarrow> \<exists>e'. traverse f xs = Inl e'"
proof (induction xs)
  case Nil
  then show ?case by simp
next
  case (Cons y ys)
  show ?case
  proof (cases "f y")
    case (Inl a)
    then show ?thesis by simp
  next
    case (Inr b)
    with Cons have "x \<in> set ys" by auto
    then obtain e' where "traverse f ys = Inl e'" using Cons by blast
    with Inr show ?thesis by simp
  qed
qed


lemma traverse_pairs:
  "\<forall>p \<in> set ps. read_date (fmt_date (fst p)) = Some (fst p) \<and> read_date (fmt_date (snd p)) = Some (snd p) \<Longrightarrow>
   traverse (parse_pair read_date)
     (map (\<lambda>(d1, d2). JArr [JStr (fmt_date d1), JStr (fmt_date d2)]) ps) = Inr ps"
proof (induction ps)
  case Nil
  show ?case by simp
next
  case (Cons p ps)
  obtain d1 d2 where p: "p = (d1, d2)" by (cases p)
  have "parse_pair read_date (JArr [JStr (fmt_date d1), JStr (fmt_date d2)]) = Inr (d1, d2)"
    using Cons.prems p by (intro parse_pair_saved) simp_all
  moreover have "traverse (parse_pair read_date)
     (map (\<lambda>(d1, d2). JArr [JStr (fmt_date d1), JStr (fmt_date d2)]) ps) = Inr ps"
    using Cons by simp
  ultimately show ?case by (simp add: p)
qed

lemma get_available_dates:
  "dict_get (results_json fmt_date stamp ds ps) ''available_dates'' (JArr []) =
   Inr (JArr (map (\<lambda>d. JStr (fmt_date d)) ds))"
  by (simp add: dict_get_def results_json_def)

lemma get_consecutive_pairs:
  "dict_get (results_json fmt_date stamp ds ps) ''consecutive_pairs'' (JArr []) =
   Inr (JArr (map (\<lambda>(d1, d2). JArr [JStr (fmt_date d1), JStr (fmt_date d2)]) ps))"
  by (simp add: dict_get_def results_json_def)


lemma load_saved:
  assumes "\<forall>d \<in> set ds. read_date (fmt_date d) = Some d"
    and "\<forall>p \<in> set ps. read_date (fmt_date (fst p)) = Some (fst p) \<and> read_date (fmt_date (snd p)) = Some (snd p)"
  shows "load_last_results read_date (Parsed (results_json fmt_date stamp ds ps)) = (ds, ps)"
proof -
  have "load_body read_date (Parsed (results_json fmt_date stamp ds ps)) = Inr (ds, ps)"
    unfolding load_body_def
    by (simp only: file_state.case get_available_dates get_consecutive_pairs py_iter_def
          json.case sum.case traverse_dates[OF assms(1)] traverse_pairs[OF assms(2)])
  then show ?thesis by (simp add: load_last_results_def)
qed

lemma load_bad_date:
  assumes "dict_get data ''available_dates'' (JArr []) = Inr (JArr items)"
    and "JStr s \<in> set items" and "read_date s = None"
  shows "load_last_results read_date (Parsed data) = ([], [])"
proof -
  have "parse_date read_date (JStr s) = Inl ValueError"
    using assms(3) by (simp add: parse_date_def)
  from traverse_fails[of "JStr s" items "parse_date read_date" ValueError, OF assms(2) this]
  obtain e where e: "traverse (parse_date read_date) items = Inl e" ..
  have "load_body read_date (Parsed data) = Inl e"
    unfolding load_body_def
    by (simp only: file_state.case assms(1) py_iter_def json.case sum.case e)
  then show ?thesis by (simp add: load_last_results_def)
qed


text \<open>
  Claim C8: \<^verbatim>\<open>load_last_results\<close> returns a result in every state of the file (the
  model has no error branch left after the handler). The result is empty when the file
  is absent, cannot be opened or does not hold JSON, and whenever the body raises, for
  instance on a date string that does not parse. On the file written by
  \<^verbatim>\<open>save_results\<close> it returns the saved dates and pairs, provided each saved date
  is read back from its ISO text.
\<close>

theorem load_last_results_never_fatal:
  "load_last_results read_date Absent = ([], []) \<and>
   load_last_results read_date Unreadable = ([], []) \<and>
   load_last_results read_date Malformed = ([], []) \<and>
   (load_body read_date stored = Inl e \<longrightarrow> load_last_results read_date stored = ([], [])) \<and>
   (dict_get data ''available_dates'' (JArr []) = Inr (JArr items) \<and> JStr s \<in> set items \<and>
      read_date s = None \<longrightarrow> load_last_results read_date (Parsed data) = ([], [])) \<and>
   ((\<forall>d \<in> set ds. read_date (fmt_date d) = Some d) \<and>
    (\<forall>p \<in> set ps. read_date (fmt_date (fst p)) = Some (fst p) \<and>
                    read_date (fmt_date (snd p)) = Some (snd p)) \<longrightarrow>
      load_last_results read_date (save_results fmt_date stamp True previous ds ps) = (ds, ps))"
proof (intro conjI impI)
  show "load_last_results read_date Absent = ([], [])"
    by (simp add: load_last_results_def load_body_def)
  show "load_last_results read_date Unreadable = ([], [])"
    by (simp add: load_last_results_def load_body_def)
  show "load_last_results read_date Malformed = ([], [])"
    by (simp add: load_last_results_def load_body_def)
next
  assume "load_body read_date stored = Inl e"
  then show "load_last_results read_date stored = ([], [])"
    by (simp add: load_last_results_def)
next
  assume h: "dict_get data ''available_dates'' (JArr []) = Inr (JArr items) \<and> JStr s \<in> set items \<and>
      read_date s = None"
  show "load_last_results read_date (Parsed data) = ([], [])"
    by (rule load_bad_date[of data items s]) (simp_all add: h)
next
  assume h: "(\<forall>d \<in> set ds. read_date (fmt_date d) = Some d) \<and>
    (\<forall>p \<in> set ps. read_date (fmt_date (fst p)) = Some (fst p) \<and>
                    read_date (fmt_date (snd p)) = Some (snd p))"
  have "load_last_results read_date (Parsed (results_json fmt_date stamp ds ps)) = (ds, ps)"
    by (rule load_saved) (simp_all add: h)
  then show "load_last_results read_date (save_results fmt_date stamp True previous ds ps) = (ds, ps)"
    by (simp add: save_results_def)
qed

text \<open>
  A JSON list instead of an object, an unparseable date among the available dates, and
  the round trip of the result for 2025-04-04 and 2025-04-05.
\<close>

theorem load_last_results_never_fatal_witness:
  "load_body (\<lambda>s. if s = ''2025-04-04'' then Some 739345 else if s = ''2025-04-05'' then Some 739346 else None)
     (Parsed (JArr [])) = Inl AttributeError \<and>
   load_last_results (\<lambda>s. if s = ''2025-04-04'' then Some 739345 else if s = ''2025-04-05'' then Some 739346 else None)
     (Parsed (JArr [])) = ([], []) \<and>
   load_last_results (\<lambda>s. if s = ''2025-04-04'' then Some 739345 else if s = ''2025-04-05'' then Some 739346 else None)
     (Parsed (JObj [(''available_dates'', JArr [JStr ''2025-04-04'', JStr ''yesterday''])])) = ([], []) \<and>
   load_last_results (\<lambda>s. if s = ''2025-04-04'' then Some 739345 else if s = ''2025-04-05'' then Some 739346 else None)
     (save_results (\<lambda>d. if d = 739345 then ''2025-04-04'' else if d = 739346 then ''2025-04-05'' else [])
        ''2025-04-01T08:00:00'' True Absent [739345, 739346] [(739345, 739346)]) =
     ([739345, 739346], [(739345, 739346)])"
  using load_last_results_never_fatal[where
      read_date = "\<lambda>s. if s = ''2025-04-04'' then Some 739345 else if s = ''2025-04-05'' then Some 739346 else None"
      and fmt_date = "\<lambda>d. if d = 739345 then ''2025-04-04'' else if d = 739346 then ''2025-04-05'' else []"
      and stored = "Parsed (JArr [])" and e = AttributeError
      and data = "JObj [(''available_dates'', JArr [JStr ''2025-04-04'', JStr ''yesterday''])]"
      and items = "[JStr ''2025-04-04'', JStr ''yesterday'']" and s = "''yesterday''"
      and ds = "[739345, 739346]" and ps = "[(739345, 739346)]"
      and stamp = "''2025-04-01T08:00:00''" and previous = Absent]
  by (simp add: load_body_def dict_get_def)

section \<open>Properties of a check cycle\<close>

lemma run_check_loop_exhausted:
  assumes "0 \<le> retries" "retries < maxr"
    and "\<forall>n. nat retries \<le> n \<and> n < nat maxr \<longrightarrow> (\<exists>e. attempts n = Inl e)"
  shows "run_check_loop retries maxr attempts = Some ([], [])"
  using assms
proof (induction retries maxr attempts rule: run_check_loop.induct)
  case (1 retries maxr attempt)
  have "nat retries < nat maxr" using "1.prems" by simp
  then obtain e where e: "attempt (nat retries) = Inl e"
    using "1.prems"(3) by (meson order_refl)
  show ?case
  proof (cases "retries + 1 < maxr")
    case False
    then show ?thesis
      using "1.prems" e by (subst run_check_loop.simps) simp
  next
    case True
    have "run_check_loop (retries + 1) maxr attempt = Some ([], [])"
    proof (rule "1.IH"[OF "1.prems"(2) e True])
      show "0 \<le> retries + 1" using "1.prems" by simp
      show "retries + 1 < maxr" by (rule True)
      show "\<forall>n. nat (retries + 1) \<le> n \<and> n < nat maxr \<longrightarrow> (\<exists>e. attempt n = Inl e)"
      proof (intro allI impI)
        fix n
        assume "nat (retries + 1) \<le> n \<and> n < nat maxr"
        then have "nat retries \<le> n \<and> n < nat maxr" by linarith
        then show "\<exists>e. attempt n = Inl e" using "1.prems"(3) by simp
      qed
    qed
    then show ?thesis
      using "1.prems" e True by (subst run_check_loop.simps) simp
  qed
qed

lemma last_results_check_cycle:
  "last_results (check_cycle w st) =
     (case run_check (cfg st) (attempt w) of
        None \<Rightarrow> last_results st
      | Some (available_dates, consecutive_pairs) \<Rightarrow>
          save_results (isoformat w) (now w) (writable w) (last_results st)
            available_dates consecutive_pairs)"
  by (simp add: check_cycle_def Let_def split: option.splits prod.splits)


text \<open>
  Claim C2, as the code has it: \<^verbatim>\<open>save_results\<close> is called with whatever
  \<^verbatim>\<open>run_check\<close> returns. When the file can be written, the store holds this cycle's
  result afterwards; after a cycle in which all \<^verbatim>\<open>max_retries\<close> attempts failed
  that is the empty result. The store keeps its previous content only when
  \<^verbatim>\<open>run_check\<close> returns nothing (no attempt is made) or the file cannot be written.
\<close>

theorem check_cycle_saves_returned_result:
  "(run_check (cfg st) (attempt w) = Some (available_dates, consecutive_pairs) \<and> writable w \<longrightarrow>
      last_results (check_cycle w st) =
        Parsed (results_json (isoformat w) (now w) available_dates consecutive_pairs)) \<and>
   (0 < max_retries (cfg st) \<and> (\<forall>n. n < nat (max_retries (cfg st)) \<longrightarrow> (\<exists>e. attempt w n = Inl e)) \<and>
    writable w \<longrightarrow>
      run_check (cfg st) (attempt w) = Some ([], []) \<and>
      last_results (check_cycle w st) = Parsed (results_json (isoformat w) (now w) [] [])) \<and>
   (run_check (cfg st) (attempt w) = None \<or> \<not> writable w \<longrightarrow>
      last_results (check_cycle w st) = last_results st)"
proof (intro conjI impI)
  assume "run_check (cfg st) (attempt w) = Some (available_dates, consecutive_pairs) \<and> writable w"
  then show "last_results (check_cycle w st) =
        Parsed (results_json (isoformat w) (now w) available_dates consecutive_pairs)"
    by (simp add: last_results_check_cycle save_results_def)
next
  assume h: "0 < max_retries (cfg st) \<and>
    (\<forall>n. n < nat (max_retries (cfg st)) \<longrightarrow> (\<exists>e. attempt w n = Inl e)) \<and> writable w"
  show r: "run_check (cfg st) (attempt w) = Some ([], [])"
    unfolding run_check_def by (rule run_check_loop_exhausted) (simp_all add: h)
  show "last_results (check_cycle w st) = Parsed (results_json (isoformat w) (now w) [] [])"
    using h by (simp add: last_results_check_cycle r save_results_def)
next
  assume "run_check (cfg st) (attempt w) = None \<or> \<not> writable w"
  then show "last_results (check_cycle w st) = last_results st"
    by (auto simp: last_results_check_cycle save_results_def split: option.splits)
qed

text \<open>
  The default configuration with three failing attempts, once with a writable file and
  once without.
\<close>

theorem check_cycle_saves_returned_result_witness:
  "0 < max_retries DEFAULT_CONFIG \<and>
   run_check DEFAULT_CONFIG (\<lambda>n. Inl WebDriverException) = Some ([], []) \<and>
   last_results
     (check_cycle
        \<lparr> isoformat = (\<lambda>d. if d = 739345 then ''2025-04-04'' else []),
          now = ''2025-04-01T11:00:00'', writable = True,
          attempt = (\<lambda>n. Inl WebDriverException), set_order = sorted_list_of_set,
          smtp_starttls = (\<lambda>m. True), smtp_ssl = (\<lambda>m. True) \<rparr>
        \<lparr> cfg = DEFAULT_CONFIG, last_results = Absent,
          previous_available_dates = [], previous_consecutive_pairs = [] \<rparr>) =
     Parsed (results_json (\<lambda>d. if d = 739345 then ''2025-04-04'' else [])
               ''2025-04-01T11:00:00'' [] []) \<and>
   last_results
     (check_cycle
        \<lparr> isoformat = (\<lambda>d. if d = 739345 then ''2025-04-04'' else []),
          now = ''2025-04-01T11:00:00'', writable = False,
          attempt = (\<lambda>n. Inl WebDriverException), set_order = sorted_list_of_set,
          smtp_starttls = (\<lambda>m. True), smtp_ssl = (\<lambda>m. True) \<rparr>
        \<lparr> cfg = DEFAULT_CONFIG, last_results = Absent,
          previous_available_dates = [], previous_consecutive_pairs = [] \<rparr>) = Absent"
proof -
  let ?st = "\<lparr> cfg = DEFAULT_CONFIG, last_results = Absent,
          previous_available_dates = [], previous_consecutive_pairs = [] \<rparr>"
  let ?w = "\<lambda>b. \<lparr> isoformat = (\<lambda>d::date. if d = 739345 then ''2025-04-04'' else []),
          now = ''2025-04-01T11:00:00'', writable = b,
          attempt = (\<lambda>n::nat. Inl WebDriverException :: error + date list),
          set_order = sorted_list_of_set,
          smtp_starttls = (\<lambda>m::email_message. True), smtp_ssl = (\<lambda>m::email_message. True) \<rparr>"
  have m: "max_retries DEFAULT_CONFIG = 3"
    by (simp add: DEFAULT_CONFIG_def)
  show ?thesis
    using check_cycle_saves_returned_result[of ?st "?w True" "[]" "[]"]
      check_cycle_saves_returned_result[of ?st "?w False" "[]" "[]"]
    by (simp add: m)
qed

text \<open>
  Claim C2 as stated: the store holds the completed result for 2025-04-04; in the next
  cycle all three attempts fail, \<^verbatim>\<open>run_check\<close> returns the empty result, and the
  store is overwritten with it.
\<close>

theorem failed_cycle_overwrites_counterexample:
  "run_check DEFAULT_CONFIG (\<lambda>n. Inl WebDriverException) = Some ([], []) \<and>
   last_results
     (check_cycle
        \<lparr> isoformat = (\<lambda>d. if d = 739345 then ''2025-04-04'' else []),
          now = ''2025-04-01T11:00:00'', writable = True,
          attempt = (\<lambda>n. Inl WebDriverException), set_order = sorted_list_of_set,
          smtp_starttls = (\<lambda>m. True), smtp_ssl = (\<lambda>m. True) \<rparr>
        \<lparr> cfg = DEFAULT_CONFIG,
          last_results = Parsed (results_json (\<lambda>d. if d = 739345 then ''2025-04-04'' else [])
                                   ''2025-04-01T08:00:00'' [739345] []),
          previous_available_dates = [739345], previous_consecutive_pairs = [] \<rparr>) =
     Parsed (JObj [(''timestamp'', JStr ''2025-04-01T11:00:00''),
                   (''available_dates'', JArr []), (''consecutive_pairs'', JArr [])]) \<and>
   Parsed (JObj [(''timestamp'', JStr ''2025-04-01T11:00:00''),
                 (''available_dates'', JArr []), (''consecutive_pairs'', JArr [])]) \<noteq>
   Parsed (results_json (\<lambda>d. if d = 739345 then ''2025-04-04'' else [])
             ''2025-04-01T08:00:00'' [739345] [])"
proof -
  have r: "run_check DEFAULT_CONFIG (\<lambda>n. Inl WebDriverException) = Some ([], [])"
    by code_simp
  show ?thesis
    by (simp add: r last_results_check_cycle save_results_def results_json_def)
qed

end
